theory Spec2Isabelle
  imports Complex_Main "HOL-Library.Log_Nat"
begin

section \<open>Dimensional Change Card Sort: data model\<close>

text \<open>
  The TypeScript interfaces \<open>Stimulus\<close> and \<open>Trial\<close> of \<open>src/index.ts\<close>.
  A JavaScript \<open>number\<close> holding a card index is an \<open>int\<close>; the optional field
  \<open>dimension?\<close> is an \<open>option\<close>.
\<close>

record Stimulus =
  img :: string
  name :: string
  shape :: string
  color :: string

record Trial =
  target :: Stimulus
  left :: Stimulus
  right :: Stimulus
  correct :: int
  dimension :: "string option"

subsection \<open>The catalogue \<open>STIMULI\<close>\<close>

definition brownRabbit :: Stimulus where
  "brownRabbit = \<lparr>img = ''assets/brown_rabbit.svg'', name = ''brown rabbit'',
     shape = ''rabbit'', color = ''brown''\<rparr>"

definition whiteRabbit :: Stimulus where
  "whiteRabbit = \<lparr>img = ''assets/white_rabbit.svg'', name = ''white rabbit'',
     shape = ''rabbit'', color = ''white''\<rparr>"

definition brownBoat :: Stimulus where
  "brownBoat = \<lparr>img = ''assets/brown_boat.svg'', name = ''brown boat'',
     shape = ''boat'', color = ''brown''\<rparr>"

definition whiteBoat :: Stimulus where
  "whiteBoat = \<lparr>img = ''assets/white_boat.svg'', name = ''white boat'',
     shape = ''boat'', color = ''white''\<rparr>"

definition blueBall :: Stimulus where
  "blueBall = \<lparr>img = ''assets/blue_ball.svg'', name = ''blue ball'',
     shape = ''ball'', color = ''blue''\<rparr>"

definition orangeTruck :: Stimulus where
  "orangeTruck = \<lparr>img = ''assets/orange_truck.svg'', name = ''orange truck'',
     shape = ''truck'', color = ''orange''\<rparr>"

definition blueTruck :: Stimulus where
  "blueTruck = \<lparr>img = ''assets/blue_truck.svg'', name = ''blue truck'',
     shape = ''truck'', color = ''blue''\<rparr>"

definition orangeBall :: Stimulus where
  "orangeBall = \<lparr>img = ''assets/orange_ball.svg'', name = ''orange ball'',
     shape = ''ball'', color = ''orange''\<rparr>"

subsection \<open>The pre-defined trial lists\<close>

definition fixedTrial :: "Stimulus \<Rightarrow> Stimulus \<Rightarrow> Stimulus \<Rightarrow> int \<Rightarrow> Trial" where
  "fixedTrial t l r c = \<lparr>target = t, left = l, right = r, correct = c, dimension = None\<rparr>"

definition COLOR_PRACTICE_TRIALS :: "Trial list" where
  "COLOR_PRACTICE_TRIALS =
    [fixedTrial brownRabbit brownBoat whiteRabbit 0,
     fixedTrial whiteBoat brownBoat whiteRabbit 1,
     fixedTrial brownBoat brownBoat whiteRabbit 0,
     fixedTrial whiteRabbit brownBoat whiteRabbit 1,
     fixedTrial brownRabbit whiteRabbit brownBoat 1]"

definition COLOR_TEST_TRIALS :: "Trial list" where
  "COLOR_TEST_TRIALS =
    [fixedTrial blueTruck blueBall orangeTruck 0,
     fixedTrial orangeBall blueBall orangeTruck 1,
     fixedTrial blueBall orangeTruck blueBall 1,
     fixedTrial orangeTruck blueBall orangeTruck 1,
     fixedTrial blueTruck orangeTruck blueBall 1]"

definition SHAPE_TEST_TRIALS :: "Trial list" where
  "SHAPE_TEST_TRIALS =
    [fixedTrial orangeBall blueBall orangeTruck 0,
     fixedTrial blueTruck blueBall orangeTruck 1,
     fixedTrial orangeTruck orangeTruck blueBall 0,
     fixedTrial blueBall orangeTruck blueBall 1,
     fixedTrial blueTruck blueBall orangeTruck 1]"

section \<open>The mixed-block generator\<close>

text \<open>
  \<open>Math.random\<close> is the only input of \<open>generateMixedTrials\<close> besides the count.
  The random source is the sequence of the values it is going to return; a call takes
  the first one and leaves the rest. A finite double is the rational number it denotes:
  the generator multiplies a draw by 4 (exact in binary floating point for a draw below
  1) and compares a draw with 0.5, so no rounding is involved. The count \<open>numTrials\<close>
  is an integer, of either sign.
\<close>

type_synonym random_source = "nat \<Rightarrow> rat"

definition Math_random :: "random_source \<Rightarrow> rat \<times> random_source" where
  "Math_random rs = (rs 0, \<lambda>k. rs (Suc k))"

text \<open>\<open>Math.random\<close> returns a value in the half-open interval from 0 to 1.\<close>

definition valid_source :: "random_source \<Rightarrow> bool" where
  "valid_source rs = (\<forall>k. 0 \<le> rs k \<and> rs k < 1)"

datatype error = TypeError

text \<open>
  Reading \<open>xs[k]\<close> for an integral number \<open>k\<close>: the element, or \<open>undefined\<close>
  (here \<open>None\<close>) outside the array.
\<close>

definition js_index :: "'a list \<Rightarrow> int \<Rightarrow> 'a option" where
  "js_index xs k = (if 0 \<le> k \<and> k < int (length xs) then Some (xs ! nat k) else None)"

definition testStimuli :: "Stimulus list" where
  "testStimuli = [blueBall, orangeTruck, blueTruck, orangeBall]"

text \<open>
  One iteration of the \<open>for\<close> loop, for loop index \<open>i\<close>. Reading \<open>target.color\<close>
  or \<open>target.shape\<close> of an \<open>undefined\<close> target throws a \<open>TypeError\<close>, after both
  draws have been made.
\<close>

definition loop_body :: "nat \<Rightarrow> random_source \<Rightarrow> error + (Trial \<times> random_source)" where
  "loop_body i rs =
    (let dimension' = (if i mod 2 = 0 then ''color'' else ''shape'');
         (r1, rs1) = Math_random rs;
         target' = js_index testStimuli \<lfloor>r1 * of_nat (length testStimuli)\<rfloor>;
         choices0 = [blueBall, orangeTruck];
         (r2, rs2) = Math_random rs1;
         choices = (if r2 > 0.5 then rev choices0 else choices0)
     in case target' of
          None \<Rightarrow> Inl TypeError
        | Some tgt \<Rightarrow>
            let correct' =
              (if dimension' = ''color''
               then (if color (choices ! 0) = color tgt then 0 else 1)
               else (if shape (choices ! 0) = shape tgt then 0 else 1))
            in Inr (\<lparr>target = tgt, left = choices ! 0, right = choices ! 1,
                      correct = correct', dimension = Some dimension'\<rparr>, rs2))"

function gen_loop :: "int \<Rightarrow> nat \<Rightarrow> random_source \<Rightarrow> Trial list \<Rightarrow> error + Trial list" where
  "gen_loop numTrials i rs mixedTrials =
    (if int i < numTrials then
       (case loop_body i rs of
          Inl e \<Rightarrow> Inl e
        | Inr (t, rs') \<Rightarrow> gen_loop numTrials (i + 1) rs' (mixedTrials @ [t]))
     else Inr mixedTrials)"
  by pat_completeness auto
termination
  by (relation "measure (\<lambda>(numTrials, i, rs, mixedTrials). nat (numTrials - int i))") auto

definition generateMixedTrials :: "random_source \<Rightarrow> int \<Rightarrow> error + Trial list" where
  "generateMixedTrials rs numTrials = gen_loop numTrials 0 rs []"


text \<open>
  A trial is well-posed for an attribute (\<open>color\<close> or \<open>shape\<close>) when exactly one of its
  two choices has the target's value of that attribute and \<open>correct\<close> is the index of
  that choice: 0 for \<open>left\<close>, 1 for \<open>right\<close>.
\<close>

definition well_posed :: "(Stimulus \<Rightarrow> string) \<Rightarrow> Trial \<Rightarrow> bool" where
  "well_posed attr t =
    (((attr (left t) = attr (target t)) \<noteq> (attr (right t) = attr (target t))) \<and>
     correct t = (if attr (left t) = attr (target t) then 0 else 1))"

section \<open>Running one trial: \<open>setupTrial\<close> and its callbacks\<close>

text \<open>
  The module-level \<open>state\<close>, and what \<open>setupTrial\<close> reads and writes outside
  itself: whether the browser has \<open>speechSynthesis\<close>, the utterances handed to it, the
  class list of every \<open>.dccs-choice-card\<close> element and the element with id
  \<open>feedback\<close>, if the page has one.
\<close>

record GameState =
  audio_enabled :: bool
  current_phase :: string
  trials_completed :: nat

record FeedbackDiv =
  textContent :: string
  className :: string

record World =
  state :: GameState
  speechAvailable :: bool
  spoken :: "string list"
  cards :: "string list list"
  feedbackDiv :: "FeedbackDiv option"

definition playAudio :: "string \<Rightarrow> World \<Rightarrow> World" where
  "playAudio text' w =
    (if audio_enabled (state w) \<and> speechAvailable w
     then w\<lparr>spoken := spoken w @ [text']\<rparr> else w)"

text \<open>The object passed to \<open>jsPsych.finishTrial\<close>.\<close>

record FinishData =
  response :: nat
  correct' :: bool
  rt :: rat

text \<open>
  The two functions handed to \<open>setTimeout\<close>: the delayed report of a practice trial,
  which closes over \<open>cardIndex\<close> and \<open>correct\<close>, and the reminder of a test trial.
\<close>

datatype callback = DelayedFinish nat bool | Reminder

text \<open>
  One call of \<open>setupTrial\<close>: the variables its closures share (\<open>trial\<close>,
  \<open>withFeedback\<close>, \<open>startTime\<close>, \<open>responded\<close>), the timers it has scheduled that
  have not fired yet (delay in milliseconds and callback), the calls of
  \<open>jsPsych.finishTrial\<close> made so far, and the exceptions that left a handler.
\<close>

record Instance =
  world :: World
  trial :: Trial
  withFeedback :: bool
  startTime :: rat
  responded :: bool
  timers :: "(nat \<times> callback) list"
  finished :: "FinishData list"
  uncaught :: "error list"

text \<open>\<open>String.prototype.toUpperCase\<close>, on the letters of ASCII.\<close>

definition toUpperCase :: "string \<Rightarrow> string" where
  "toUpperCase s =
    map (\<lambda>c. case map_of (zip ''abcdefghijklmnopqrstuvwxyz'' ''ABCDEFGHIJKLMNOPQRSTUVWXYZ'') c of
               Some u \<Rightarrow> u | None \<Rightarrow> c) s"

definition classList_add :: "string \<Rightarrow> string list \<Rightarrow> string list" where
  "classList_add c cl = (if c \<in> set cl then cl else cl @ [c])"

definition setTimeout :: "callback \<Rightarrow> nat \<Rightarrow> Instance \<Rightarrow> Instance" where
  "setTimeout cb delay s = s\<lparr>timers := timers s @ [(delay, cb)]\<rparr>"

definition finishTrial :: "FinishData \<Rightarrow> Instance \<Rightarrow> Instance" where
  "finishTrial d s = s\<lparr>finished := finished s @ [d]\<rparr>"

text \<open>
  The body of \<open>setupTrial\<close>, called when \<open>performance.now()\<close> is \<open>now\<close>. The
  parameters \<open>phase\<close> and \<open>trialNum\<close> are not used by the source either.
\<close>

definition setupTrial ::
  "World \<Rightarrow> Trial \<Rightarrow> string \<Rightarrow> nat \<Rightarrow> string \<Rightarrow> bool \<Rightarrow> rat \<Rightarrow> Instance" where
  "setupTrial w trial' phase trialNum dimension' withFeedback' now =
    (let s = \<lparr>world = playAudio (toUpperCase dimension') w, trial = trial',
               withFeedback = withFeedback', startTime = now, responded = False,
               timers = [], finished = [], uncaught = []\<rparr>
     in if \<not> withFeedback' then setTimeout Reminder 5000 s else s)"

text \<open>
  The feedback block of the click listener. \<open>cards[trial.correct].classList\<close> throws
  a \<open>TypeError\<close> when \<open>trial.correct\<close> is not the index of a card; what was written
  before stays written (\<open>Inl\<close> carries that state).
\<close>

definition showFeedback :: "bool \<Rightarrow> Instance \<Rightarrow> Instance + Instance" where
  "showFeedback ok s =
    (case feedbackDiv (world s) of
       None \<Rightarrow> Inr s
     | Some f \<Rightarrow>
        if ok then
          Inr (s\<lparr>world := playAudio ''That's right!''
                 ((world s)\<lparr>feedbackDiv := Some \<lparr>textContent = ''That's right!'',
                                   className = ''dccs-feedback correct''\<rparr>\<rparr>)\<rparr>)
        else
          let w1 = playAudio ''This is the same color, so you should choose this picture.''
                 ((world s)\<lparr>feedbackDiv := Some \<lparr>textContent = ''This is the same color.'',
                                   className = ''dccs-feedback incorrect''\<rparr>\<rparr>)
          in (case js_index (cards w1) (correct (trial s)) of
                None \<Rightarrow> Inl (s\<lparr>world := w1\<rparr>)
              | Some cl \<Rightarrow>
                  Inr (s\<lparr>world := w1\<lparr>cards := (cards w1)
                         [nat (correct (trial s)) := classList_add ''highlight'' cl]\<rparr>\<rparr>)))"

text \<open>
  The click listener of card \<open>cardIndex\<close>, run when \<open>performance.now()\<close> is \<open>now\<close>.
  On the feedback path the clock is not read here but inside the delayed callback.
\<close>

definition clickHandler :: "nat \<Rightarrow> rat \<Rightarrow> Instance \<Rightarrow> Instance" where
  "clickHandler cardIndex now s =
    (if responded s then s
     else
       let s1 = s\<lparr>responded := True\<rparr>;
           ok = (int cardIndex = correct (trial s1))
       in if withFeedback s1 then
            (case showFeedback ok s1 of
               Inl s2 \<Rightarrow> s2\<lparr>uncaught := uncaught s2 @ [TypeError]\<rparr>
             | Inr s2 \<Rightarrow> setTimeout (DelayedFinish cardIndex ok) (if ok then 1500 else 2500) s2)
          else
            finishTrial \<lparr>response = cardIndex, correct' = ok, rt = now - startTime s1\<rparr> s1)"

text \<open>
  A timer's callback, run when \<open>performance.now()\<close> is \<open>now\<close> and
  \<open>jsPsych.getCurrentTrial()\<close> is truthy exactly when \<open>current\<close> holds.
\<close>

fun runCallback :: "callback \<Rightarrow> rat \<Rightarrow> bool \<Rightarrow> Instance \<Rightarrow> Instance" where
  "runCallback (DelayedFinish cardIndex ok) now current s =
     finishTrial \<lparr>response = cardIndex, correct' = ok, rt = now - startTime s\<rparr> s"
| "runCallback Reminder now current s =
     (if \<not> responded s \<and> current
      then s\<lparr>world := playAudio ''Choose one of the pictures.'' (world s)\<rparr> else s)"

text \<open>
  What the browser can do to a trial: a click on card \<open>cardIndex\<close> (only a card that
  exists has a listener), or the firing of the \<open>k\<close>-th pending timer, which is then no
  longer pending.
\<close>

datatype event = Click nat rat | Timeout nat rat bool

fun step :: "event \<Rightarrow> Instance \<Rightarrow> Instance" where
  "step (Click cardIndex now) s =
     (if cardIndex < length (cards (world s)) then clickHandler cardIndex now s else s)"
| "step (Timeout k now current) s =
     (if k < length (timers s)
      then runCallback (snd (timers s ! k)) now current
             (s\<lparr>timers := take k (timers s) @ drop (Suc k) (timers s)\<rparr>)
      else s)"

fun run :: "event list \<Rightarrow> Instance \<Rightarrow> Instance" where
  "run [] s = s"
| "run (e # es) s = run es (step e s)"


subsection \<open>Event sequences and example scenarios\<close>

text \<open>
  The index of the first click of an event sequence that lands on one of the \<open>n\<close>
  cards.
\<close>

fun first_click :: "nat \<Rightarrow> event list \<Rightarrow> nat option" where
  "first_click n [] = None"
| "first_click n (Click i now # es) = (if i < n then Some i else first_click n es)"
| "first_click n (Timeout k now current # es) = first_click n es"

text \<open>
  The page that \<open>createTrialStimulus\<close> renders has two choice cards and the feedback
  element, empty at first.
\<close>

definition trial_page :: "bool \<Rightarrow> World" where
  "trial_page audio =
    \<lparr>state = \<lparr>audio_enabled = audio, current_phase = [], trials_completed = 0\<rparr>,
     speechAvailable = True, spoken = [],
     cards = [''dccs-choice-card''] # [''dccs-choice-card''] # [],
     feedbackDiv = Some \<lparr>textContent = [], className = ''dccs-feedback''\<rparr>\<rparr>"

text \<open>
  The first practice trial as \<open>createPracticeTrial\<close> sets it up, at clock value 1000,
  and the first colour test trial as \<open>createTestTrial\<close> does.
\<close>

definition practice_example :: Instance where
  "practice_example =
     setupTrial (trial_page True) (COLOR_PRACTICE_TRIALS ! 0) ''color_practice'' 1 ''color''
       True 1000"

definition test_example :: Instance where
  "test_example =
     setupTrial (trial_page True) (COLOR_TEST_TRIALS ! 0) ''color_test'' 1 ''color''
       False 1000"

text \<open>
  The timers that report a result, and the invariant of the response latch: before a
  click is accepted nothing has been reported and no report is pending; once the click
  on card \<open>i\<close> is accepted, at most one report exists, made or pending, and it is the
  one of card \<open>i\<close>.
\<close>

definition finish_timers :: "Instance \<Rightarrow> (nat \<times> callback) list" where
  "finish_timers s = filter (\<lambda>x. snd x \<noteq> Reminder) (timers s)"

definition latch :: "nat option \<Rightarrow> Instance \<Rightarrow> bool" where
  "latch fc s =
    (case fc of
       None \<Rightarrow> \<not> responded s \<and> finished s = [] \<and> finish_timers s = []
     | Some i \<Rightarrow> responded s \<and>
         length (finished s) + length (finish_timers s) \<le> 1 \<and>
         (\<forall>r \<in> set (finished s). response r = i \<and> correct' r = (int i = correct (trial s))) \<and>
         (\<forall>x \<in> set (finish_timers s). snd x = DelayedFinish i (int i = correct (trial s))))"

section \<open>The summary screen: accuracy per phase\<close>

subsection \<open>Numbers\<close>

text \<open>
  The numbers of the accuracy computation are counts, their quotient and its product
  with 100: none is negative. A number is \<open>NaN\<close>, \<open>Infinity\<close> or a finite double,
  given by the rational it denotes. \<open>round_double\<close> is the rounding every arithmetic
  operation ends with: to the nearest double, a tie to the one with an even significand
  (53 bits; least exponent -1074 for the last place, so that subnormal numbers are
  covered; a result of \<open>2^1024\<close> or more is \<open>Infinity\<close>).
\<close>

datatype jsnum = NaN | Infinity | Fin rat

definition rne :: "rat \<Rightarrow> int" where
  "rne z =
    (let f = \<lfloor>z\<rfloor>; d = z - of_int f
     in if d < 1/2 then f else if 1/2 < d then f + 1
        else if even f then f else f + 1)"

text \<open>For \<open>x > 0\<close>, the integer \<open>e\<close> with \<open>2^e \<le> x < 2^(e+1)\<close>.\<close>

definition flog2 :: "rat \<Rightarrow> int" where
  "flog2 x =
    (let (p, q) = quotient_of x; e = bitlen p - bitlen q
     in if 2 powi e \<le> x then e else e - 1)"

definition round_double :: "rat \<Rightarrow> jsnum" where
  "round_double x =
    (if x = 0 then Fin 0
     else let e = max (flog2 x) (- 1022) - 52;
              y = of_int (rne (x / 2 powi e)) * 2 powi e
          in if 2 powi 1024 \<le> y then Infinity else Fin y)"

fun js_div :: "jsnum \<Rightarrow> jsnum \<Rightarrow> jsnum" where
  "js_div (Fin x) (Fin y) =
     (if y = 0 then (if x = 0 then NaN else Infinity) else round_double (x / y))"
| "js_div (Fin x) Infinity = Fin 0"
| "js_div Infinity (Fin y) = Infinity"
| "js_div Infinity Infinity = NaN"
| "js_div NaN _ = NaN"
| "js_div _ NaN = NaN"

fun js_mul :: "jsnum \<Rightarrow> jsnum \<Rightarrow> jsnum" where
  "js_mul (Fin x) (Fin y) = round_double (x * y)"
| "js_mul Infinity (Fin y) = (if y = 0 then NaN else Infinity)"
| "js_mul (Fin x) Infinity = (if x = 0 then NaN else Infinity)"
| "js_mul Infinity Infinity = Infinity"
| "js_mul NaN _ = NaN"
| "js_mul _ NaN = NaN"

text \<open>
  \<open>Number.prototype.toFixed(0)\<close>: the text of a number that is not finite is its name;
  from \<open>10^21\<close> on it is the exponential notation of \<open>toString\<close>; below it is the
  decimal digits of the integer \<open>n\<close> nearest to the number, the larger one of two.
\<close>

datatype fixed = FixedNaN | FixedInfinity | FixedExponential rat | FixedDigits nat

definition toFixed0 :: "jsnum \<Rightarrow> fixed" where
  "toFixed0 x =
    (case x of
       NaN \<Rightarrow> FixedNaN
     | Infinity \<Rightarrow> FixedInfinity
     | Fin v \<Rightarrow> if 10 ^ 21 \<le> v then FixedExponential v else FixedDigits (nat \<lfloor>v + 1/2\<rfloor>))"

subsection \<open>Recorded data\<close>

text \<open>
  Modelled from the spec: the host framework's "tabular query/filter/aggregate
  interface over previously recorded results" (\<open>jsPsych.data.get()\<close>, \<open>filter\<close>,
  \<open>count\<close>), which is a third-party library and not part of this repository. A
  recorded result is an object, a finite map from keys to values; \<open>filter({k: v})\<close>
  keeps the results whose property \<open>k\<close> is \<open>v\<close>, in order; \<open>count()\<close> is their number
  (the length of an array, below \<open>2^32\<close>, hence a double).
\<close>

datatype jsvalue = JStr string | JBool bool | JNum rat

type_synonym row = "string \<rightharpoonup> jsvalue"

definition filter_rows :: "string \<Rightarrow> jsvalue \<Rightarrow> row list \<Rightarrow> row list" where
  "filter_rows k v rows = filter (\<lambda>r. r k = Some v) rows"

definition count :: "row list \<Rightarrow> jsnum" where
  "count rows = Fin (of_nat (length rows))"

subsection \<open>\<open>createResults\<close>\<close>

text \<open>
  The accuracy of one phase, as the \<open>stimulus\<close> function of \<open>createResults\<close> computes
  it from that phase's results, and the three accuracy cells of its table (colour,
  shape, mixed), each followed by a percent sign in the page. The response-time column
  and the markup around the cells are left out.
\<close>

definition accuracy :: "row list \<Rightarrow> jsnum" where
  "accuracy trials =
     js_mul (js_div (count (filter_rows ''correct'' (JBool True) trials)) (count trials))
            (Fin 100)"

definition createResults :: "row list \<Rightarrow> fixed \<times> fixed \<times> fixed" where
  "createResults recorded =
    (let data = filter_rows ''task'' (JStr ''dccs'') recorded;
         colorTrials = filter_rows ''phase'' (JStr ''color_test'') data;
         shapeTrials = filter_rows ''phase'' (JStr ''shape_test'') data;
         mixedTrials = filter_rows ''phase'' (JStr ''mixed'') data;
         colorAccuracy = accuracy colorTrials;
         shapeAccuracy = accuracy shapeTrials;
         mixedAccuracy = accuracy mixedTrials
     in (toFixed0 colorAccuracy, toFixed0 shapeAccuracy, toFixed0 mixedAccuracy))"


subsection \<open>What the summary is claimed to show\<close>

text \<open>
  In the words of the specification: the recorded results of a phase, those of them
  with \<open>correct = true\<close>, and a cell that shows an integer nearest to the percentage
  of \<open>c\<close> in \<open>t\<close> (either neighbour when the percentage lies halfway between two).
\<close>

definition phase_results :: "string \<Rightarrow> row list \<Rightarrow> row list" where
  "phase_results p recorded =
     [r \<leftarrow> recorded. r ''task'' = Some (JStr ''dccs'') \<and> r ''phase'' = Some (JStr p)]"

definition correct_results :: "row list \<Rightarrow> row list" where
  "correct_results rows = [r \<leftarrow> rows. r ''correct'' = Some (JBool True)]"

definition nearest_percent :: "fixed \<Rightarrow> nat \<Rightarrow> nat \<Rightarrow> bool" where
  "nearest_percent cell c t =
    (case cell of
       FixedDigits n \<Rightarrow> \<bar>of_nat n - of_nat c / of_nat t * 100\<bar> \<le> (1/2 :: rat)
     | _ \<Rightarrow> False)"

text \<open>
  A recorded result of a trial of this task, and an example of recorded data: the
  welcome screen, five colour test trials of which four are correct, three shape test
  trials of which two are correct, and eight mixed trials of which one is correct.
\<close>

definition result_row :: "string \<Rightarrow> bool \<Rightarrow> row" where
  "result_row p ok =
     [''task'' \<mapsto> JStr ''dccs'', ''phase'' \<mapsto> JStr p, ''correct'' \<mapsto> JBool ok]"

definition example_data :: "row list" where
  "example_data =
     [''trial_type'' \<mapsto> JStr ''welcome''] #
     replicate 4 (result_row ''color_test'' True) @ [result_row ''color_test'' False] @
     replicate 2 (result_row ''shape_test'' True) @ [result_row ''shape_test'' False] @
     result_row ''mixed'' True # replicate 7 (result_row ''mixed'' False)"

section \<open>Properties of the generator\<close>

declare gen_loop.simps [simp del]

lemma js_index_testStimuli:
  assumes "0 \<le> r" and "r < 1"
  shows "\<exists>s. js_index testStimuli \<lfloor>r * of_nat (length testStimuli)\<rfloor> = Some s"
proof -
  have "0 \<le> \<lfloor>r * 4\<rfloor>" using assms by simp
  moreover have "\<lfloor>r * 4\<rfloor> < 4" using assms by (simp add: floor_less_iff)
  ultimately show ?thesis
    by (simp add: js_index_def testStimuli_def)
qed

lemma loop_body_ok:
  assumes "0 \<le> rs 0" and "rs 0 < 1"
  shows "\<exists>t. loop_body i rs = Inr (t, \<lambda>k. rs (Suc (Suc k)))"
proof -
  obtain s where "js_index testStimuli \<lfloor>rs 0 * of_nat (length testStimuli)\<rfloor> = Some s"
    using js_index_testStimuli[of "rs 0"] assms by blast
  then show ?thesis
    by (simp add: loop_body_def Math_random_def Let_def)
qed

lemma gen_loop_total:
  "valid_source rs \<Longrightarrow>
   \<exists>ts. gen_loop n i rs acc = Inr ts \<and> length ts = length acc + nat (n - int i)"
proof (induction n i rs acc rule: gen_loop.induct)
  case (1 numTrials i rs mixedTrials)
  show ?case
  proof (cases "int i < numTrials")
    case False
    then show ?thesis by (subst gen_loop.simps) simp
  next
    case True
    from 1(2) have r: "0 \<le> rs 0" "rs 0 < 1" and v: "valid_source (\<lambda>k. rs (Suc (Suc k)))"
      by (simp_all add: valid_source_def)
    obtain t where t: "loop_body i rs = Inr (t, \<lambda>k. rs (Suc (Suc k)))"
      using loop_body_ok[of rs i] r by blast
    from 1(1)[OF True t refl v] obtain ts where
      "gen_loop numTrials (i + 1) (\<lambda>k. rs (Suc (Suc k))) (mixedTrials @ [t]) = Inr ts"
      "length ts = length (mixedTrials @ [t]) + nat (numTrials - int (i + 1))"
      by blast
    with True t show ?thesis
      by (subst gen_loop.simps) (simp add: nat_diff_distrib')
  qed
qed

text \<open>
  What holds of the trial of every iteration holds of every trial of the result, the
  \<open>j\<close>-th trial being the one of iteration \<open>j\<close>.
\<close>

lemma gen_loop_all:
  "gen_loop n i rs acc = Inr ts \<Longrightarrow> length acc = i \<Longrightarrow>
   (\<And>j. j < i \<Longrightarrow> P j (acc ! j)) \<Longrightarrow>
   (\<And>j t rs rs'. loop_body j rs = Inr (t, rs') \<Longrightarrow> P j t) \<Longrightarrow>
   j < length ts \<Longrightarrow> P j (ts ! j)"
proof (induction n i rs acc rule: gen_loop.induct)
  case (1 numTrials i rs mixedTrials)
  show ?case
  proof (cases "int i < numTrials")
    case False
    with 1(2) have "ts = mixedTrials" by (subst (asm) gen_loop.simps) simp
    with 1(3,4,6) show ?thesis by simp
  next
    case True
    with 1(2) obtain t rs' where t: "loop_body i rs = Inr (t, rs')"
      and g: "gen_loop numTrials (i + 1) rs' (mixedTrials @ [t]) = Inr ts"
      by (subst (asm) gen_loop.simps) (auto split: sum.splits)
    have "P j ((mixedTrials @ [t]) ! j)" if "j < i + 1" for j
      using that 1(3) 1(4)[of j] 1(5)[OF t] by (cases "j = i") (auto simp: nth_append)
    with 1(1)[OF True t refl g _ _ 1(5) 1(6)] 1(3) show ?thesis
      by simp
  qed
qed

lemma target_cases:
  assumes "js_index testStimuli k = Some s"
  shows "s = blueBall \<or> s = orangeTruck \<or> s = blueTruck \<or> s = orangeBall"
proof -
  from assms have "nat k < length testStimuli" and "s = testStimuli ! nat k"
    by (auto simp: js_index_def split: if_splits)
  then have "s \<in> set testStimuli" by simp
  then show ?thesis by (simp add: testStimuli_def)
qed

lemma well_posed_generated:
  assumes "s = blueBall \<or> s = orangeTruck \<or> s = blueTruck \<or> s = orangeBall"
    and "(l = blueBall \<and> r = orangeTruck) \<or> (l = orangeTruck \<and> r = blueBall)"
  shows "well_posed color \<lparr>target = s, left = l, right = r,
            correct = (if color l = color s then 0 else 1), dimension = d\<rparr>"
    and "well_posed shape \<lparr>target = s, left = l, right = r,
            correct = (if shape l = shape s then 0 else 1), dimension = d\<rparr>"
  using assms
  by (auto simp: well_posed_def blueBall_def orangeTruck_def blueTruck_def orangeBall_def)

lemma loop_body_dimension:
  assumes "loop_body i rs = Inr (t, rs')"
  shows "dimension t = Some (if even i then ''color'' else ''shape'')"
  using assms
  by (cases "js_index testStimuli \<lfloor>rs 0 * of_nat (length testStimuli)\<rfloor>")
    (auto simp: loop_body_def Math_random_def Let_def even_iff_mod_2_eq_zero)

lemma loop_body_well_posed:
  assumes "loop_body i rs = Inr (t, rs')"
  shows "well_posed (if even i then color else shape) t"
proof -
  obtain s where s: "js_index testStimuli \<lfloor>rs 0 * of_nat (length testStimuli)\<rfloor> = Some s"
    using assms
    by (cases "js_index testStimuli \<lfloor>rs 0 * of_nat (length testStimuli)\<rfloor>")
      (simp_all add: loop_body_def Math_random_def Let_def)
  define l where "l = (if rs (Suc 0) > 0.5 then orangeTruck else blueBall)"
  define r where "r = (if rs (Suc 0) > 0.5 then blueBall else orangeTruck)"
  have lr: "(l = blueBall \<and> r = orangeTruck) \<or> (l = orangeTruck \<and> r = blueBall)"
    by (simp add: l_def r_def)
  note wp = well_posed_generated[OF target_cases[OF s] lr]
  show ?thesis
  proof (cases "even i")
    case True
    with assms s have "t = \<lparr>target = s, left = l, right = r,
        correct = (if color l = color s then 0 else 1), dimension = Some ''color''\<rparr>"
      by (cases "rs (Suc 0) > 0.5")
        (simp_all add: loop_body_def Math_random_def Let_def l_def r_def even_iff_mod_2_eq_zero)
    with True wp(1) show ?thesis by simp
  next
    case False
    with assms s have "t = \<lparr>target = s, left = l, right = r,
        correct = (if shape l = shape s then 0 else 1), dimension = Some ''shape''\<rparr>"
      by (cases "rs (Suc 0) > 0.5")
        (simp_all add: loop_body_def Math_random_def Let_def l_def r_def even_iff_mod_2_eq_zero)
    with False wp(2) show ?thesis by simp
  qed
qed

lemma fixed_lists_well_posed:
  "list_all (well_posed color) COLOR_PRACTICE_TRIALS"
  "list_all (well_posed color) COLOR_TEST_TRIALS"
  "list_all (well_posed shape) SHAPE_TEST_TRIALS"
  by (simp_all add: COLOR_PRACTICE_TRIALS_def COLOR_TEST_TRIALS_def SHAPE_TEST_TRIALS_def
      fixedTrial_def well_posed_def brownRabbit_def whiteRabbit_def brownBoat_def
      whiteBoat_def blueBall_def orangeTruck_def blueTruck_def orangeBall_def)

lemma half_source_trials:
  "generateMixedTrials (\<lambda>_. 1/2) 2 =
     Inr [\<lparr>target = blueTruck, left = blueBall, right = orangeTruck, correct = 0,
            dimension = Some ''color''\<rparr>,
          \<lparr>target = blueTruck, left = blueBall, right = orangeTruck, correct = 1,
            dimension = Some ''shape''\<rparr>]"
  by (simp add: generateMixedTrials_def gen_loop.simps loop_body_def Math_random_def
      js_index_def testStimuli_def Let_def blueBall_def orangeTruck_def blueTruck_def)

text \<open>
  C1. Every trial is well-posed for its active dimension. The trial at index \<open>i\<close> of a
  generated list (dimension \<open>color\<close> when \<open>i\<close> is even, \<open>shape\<close> when it is odd) has
  exactly one choice with the target's colour, respectively shape, and \<open>correct\<close> is
  the index of that choice; so has every trial of \<open>COLOR_PRACTICE_TRIALS\<close> and
  \<open>COLOR_TEST_TRIALS\<close> for the colour and of \<open>SHAPE_TEST_TRIALS\<close> for the shape.
\<close>

theorem trials_well_posed:
  assumes "generateMixedTrials rs n = Inr ts" and "i < length ts"
  shows "dimension (ts ! i) = Some (if even i then ''color'' else ''shape'') \<and>
         well_posed (if even i then color else shape) (ts ! i) \<and>
         list_all (well_posed color) COLOR_PRACTICE_TRIALS \<and>
         list_all (well_posed color) COLOR_TEST_TRIALS \<and>
         list_all (well_posed shape) SHAPE_TEST_TRIALS"
proof -
  note g = assms(1)[unfolded generateMixedTrials_def]
  have "dimension (ts ! i) = Some (if even i then ''color'' else ''shape'')"
    using g by (rule gen_loop_all) (use assms(2) loop_body_dimension in simp_all)
  moreover have "well_posed (if even i then color else shape) (ts ! i)"
    using g by (rule gen_loop_all) (use assms(2) loop_body_well_posed in simp_all)
  ultimately show ?thesis
    by (simp add: fixed_lists_well_posed)
qed

theorem trials_well_posed_witness:
  "generateMixedTrials (\<lambda>_. 1/2) 2 =
     Inr [\<lparr>target = blueTruck, left = blueBall, right = orangeTruck, correct = 0,
            dimension = Some ''color''\<rparr>,
          \<lparr>target = blueTruck, left = blueBall, right = orangeTruck, correct = 1,
            dimension = Some ''shape''\<rparr>] \<and>
   well_posed shape \<lparr>target = blueTruck, left = blueBall, right = orangeTruck, correct = 1,
            dimension = Some ''shape''\<rparr> \<and>
   list_all (well_posed color) COLOR_PRACTICE_TRIALS \<and>
   list_all (well_posed color) COLOR_TEST_TRIALS \<and>
   list_all (well_posed shape) SHAPE_TEST_TRIALS"
  using trials_well_posed[OF half_source_trials, of 1] half_source_trials by simp

text \<open>
  C4. With a random source that keeps to the range of \<open>Math.random\<close>, the generator
  does not fail and returns exactly \<open>n\<close> trials for a count \<open>n \<ge> 0\<close> (\<open>nat n\<close> is \<open>n\<close>
  then, and 0 for a negative \<open>n\<close>, where the loop does not run); for the count 0 it
  returns the empty list.
\<close>

theorem generate_length:
  assumes "valid_source rs"
  shows "(\<exists>ts. generateMixedTrials rs n = Inr ts \<and> length ts = nat n) \<and>
         generateMixedTrials rs 0 = Inr []"
  using gen_loop_total[OF assms, of n 0 "[]"]
  by (simp add: generateMixedTrials_def gen_loop.simps[of 0])

theorem generate_length_witness:
  "valid_source (\<lambda>_. 1/2) \<and>
   (\<exists>ts. generateMixedTrials (\<lambda>_. 1/2) 3 = Inr ts \<and> length ts = 3) \<and>
   generateMixedTrials (\<lambda>_. 1/2) 0 = Inr []"
proof -
  have v: "valid_source (\<lambda>_. 1/2)" by (simp add: valid_source_def)
  show ?thesis using v generate_length[OF v, of 3] by simp
qed

text \<open>
  C5. The trial at index \<open>i\<close> of a generated list has dimension \<open>color\<close> when \<open>i\<close> is
  even and \<open>shape\<close> when \<open>i\<close> is odd, whatever the random source returned.
\<close>

theorem generate_dimension:
  assumes "generateMixedTrials rs n = Inr ts" and "i < length ts"
  shows "dimension (ts ! i) = Some (if even i then ''color'' else ''shape'')"
  using assms(1)[unfolded generateMixedTrials_def]
  by (rule gen_loop_all) (use assms(2) loop_body_dimension in simp_all)

theorem generate_dimension_witness:
  "generateMixedTrials (\<lambda>_. 1/2) 2 =
     Inr [\<lparr>target = blueTruck, left = blueBall, right = orangeTruck, correct = 0,
            dimension = Some ''color''\<rparr>,
          \<lparr>target = blueTruck, left = blueBall, right = orangeTruck, correct = 1,
            dimension = Some ''shape''\<rparr>] \<and>
   dimension \<lparr>target = blueTruck, left = blueBall, right = orangeTruck, correct = 1,
            dimension = Some ''shape''\<rparr> = Some ''shape''"
  using generate_dimension[OF half_source_trials, of 1] half_source_trials by simp

text \<open>
  C7. With a random source that returns 0.5 at every draw, \<open>generateMixedTrials(2)\<close>
  yields a first trial of dimension \<open>color\<close> and a second of dimension \<open>shape\<close>, both
  with the blue ball on the left and the orange truck on the right: the swap test
  \<open>0.5 > 0.5\<close> is false.
\<close>

theorem generate_half_source:
  "generateMixedTrials (\<lambda>_. 0.5) 2 =
     Inr [\<lparr>target = blueTruck, left = blueBall, right = orangeTruck, correct = 0,
            dimension = Some ''color''\<rparr>,
          \<lparr>target = blueTruck, left = blueBall, right = orangeTruck, correct = 1,
            dimension = Some ''shape''\<rparr>]"
  by (simp add: generateMixedTrials_def gen_loop.simps loop_body_def Math_random_def
      js_index_def testStimuli_def Let_def blueBall_def orangeTruck_def blueTruck_def)

section \<open>Properties of a running trial\<close>

lemma playAudio_fields [simp]:
  "cards (playAudio t w) = cards w"
  "feedbackDiv (playAudio t w) = feedbackDiv w"
  "state (playAudio t w) = state w"
  "speechAvailable (playAudio t w) = speechAvailable w"
  by (simp_all add: playAudio_def)

text \<open>The feedback block writes to the page and the speech queue only.\<close>

lemma showFeedback_fields:
  assumes "showFeedback ok s = Inr s' \<or> showFeedback ok s = Inl s'"
  shows "trial s' = trial s" "withFeedback s' = withFeedback s" "startTime s' = startTime s"
    "responded s' = responded s" "timers s' = timers s" "finished s' = finished s"
    "uncaught s' = uncaught s" "length (cards (world s')) = length (cards (world s))"
  using assms
  by (auto simp: showFeedback_def Let_def split: option.splits if_splits)

lemma latch_setup: "latch None (setupTrial w t ph n d fb t0)"
  by (simp add: latch_def setupTrial_def setTimeout_def finish_timers_def Let_def)

lemma clickHandler_latch:
  assumes "latch None s"
  shows "latch (Some i) (clickHandler i now s)"
proof (cases "withFeedback s")
  case False
  with assms show ?thesis
    by (simp add: latch_def clickHandler_def finishTrial_def finish_timers_def Let_def)
next
  case True
  let ?s1 = "s\<lparr>responded := True\<rparr>"
  let ?ok = "int i = correct (trial s)"
  show ?thesis
  proof (cases "showFeedback ?ok ?s1")
    case (Inl s2)
    from showFeedback_fields[of ?ok ?s1 s2] Inl assms True show ?thesis
      by (simp add: latch_def clickHandler_def finish_timers_def Let_def)
  next
    case (Inr s2)
    from showFeedback_fields[of ?ok ?s1 s2] Inr assms True show ?thesis
      by (simp add: latch_def clickHandler_def finish_timers_def Let_def setTimeout_def)
  qed
qed

lemma clickHandler_responded: "responded s \<Longrightarrow> clickHandler i now s = s"
  by (simp add: clickHandler_def)

lemma filter_remove_nth:
  assumes "k < length xs"
  shows "length (filter P (take k xs @ drop (Suc k) xs)) + (if P (xs ! k) then 1 else 0)
         = length (filter P xs)"
proof -
  have "xs = take k xs @ xs ! k # drop (Suc k) xs"
    using assms by (rule id_take_nth_drop)
  then have "length (filter P xs) = length (filter P (take k xs @ xs ! k # drop (Suc k) xs))"
    by simp
  then show ?thesis by simp
qed

lemma set_remove_nth: "set (take k xs @ drop (Suc k) xs) \<subseteq> set xs"
  by (auto dest: in_set_takeD in_set_dropD)

lemma timeout_latch:
  assumes "latch fc s"
  shows "latch fc (step (Timeout k now cur) s)"
proof (cases "k < length (timers s)")
  case False
  with assms show ?thesis by simp
next
  case True
  let ?ts = "take k (timers s) @ drop (Suc k) (timers s)"
  have sub: "set (filter (\<lambda>x. snd x \<noteq> Reminder) ?ts) \<subseteq> set (finish_timers s)"
    using set_remove_nth[of k "timers s"] by (auto simp: finish_timers_def)
  have len: "length (filter (\<lambda>x. snd x \<noteq> Reminder) ?ts) +
      (if snd (timers s ! k) \<noteq> Reminder then 1 else 0) = length (finish_timers s)"
    using filter_remove_nth[OF True, of "\<lambda>x. snd x \<noteq> Reminder"] by (simp add: finish_timers_def)
  show ?thesis
  proof (cases "snd (timers s ! k)")
    case Reminder
    with True assms sub len show ?thesis
      by (cases fc) (auto simp: latch_def finish_timers_def)
  next
    case (DelayedFinish i ok)
    then have mem: "timers s ! k \<in> set (finish_timers s)"
      using True by (simp add: finish_timers_def)
    show ?thesis
    proof (cases fc)
      case None
      with assms mem show ?thesis by (simp add: latch_def)
    next
      case (Some j)
      with assms mem DelayedFinish have ij: "i = j" "ok = (int j = correct (trial s))"
        by (auto simp: latch_def)
      from Some assms have r: "responded s"
        and le: "length (finished s) + length (finish_timers s) \<le> 1"
        by (simp_all add: latch_def)
      from len DelayedFinish
      have "length (filter (\<lambda>x. snd x \<noteq> Reminder) ?ts) + 1 = length (finish_timers s)"
        by (simp del: filter_append)
      with le have "length (finished s) = 0"
        and "length (filter (\<lambda>x. snd x \<noteq> Reminder) ?ts) = 0"
        by linarith+
      then have f0: "finished s = []"
        and t0: "filter (\<lambda>x. snd x \<noteq> Reminder) ?ts = []"
        by (simp_all del: filter_append)
      have "step (Timeout k now cur) s =
          finishTrial \<lparr>response = i, correct' = ok, rt = now - startTime s\<rparr> (s\<lparr>timers := ?ts\<rparr>)"
        using True DelayedFinish by simp
      with Some r f0 t0 ij show ?thesis
        by (simp add: latch_def finish_timers_def finishTrial_def)
    qed
  qed
qed

lemma click_latch:
  assumes "latch fc s"
  shows "latch (case fc of Some j \<Rightarrow> Some j
                | None \<Rightarrow> if i < length (cards (world s)) then Some i else None)
           (step (Click i now) s)"
proof (cases fc)
  case None
  with assms clickHandler_latch[of s i now] show ?thesis by simp
next
  case (Some j)
  with assms have "responded s" by (simp add: latch_def)
  with Some assms show ?thesis by (simp add: clickHandler_responded)
qed

lemma step_cards_length: "length (cards (world (step e s))) = length (cards (world s))"
proof (cases e)
  case (Click i now)
  show ?thesis
  proof (cases "showFeedback (int i = correct (trial s)) (s\<lparr>responded := True\<rparr>)")
    case (Inl s2)
    with showFeedback_fields(8)[of "int i = correct (trial s)" "s\<lparr>responded := True\<rparr>" s2] Click
    show ?thesis
      by (simp add: clickHandler_def Let_def finishTrial_def)
  next
    case (Inr s2)
    with showFeedback_fields(8)[of "int i = correct (trial s)" "s\<lparr>responded := True\<rparr>" s2] Click
    show ?thesis
      by (simp add: clickHandler_def Let_def finishTrial_def setTimeout_def)
  qed
next
  case (Timeout k now cur)
  then show ?thesis
    by (cases "snd (timers s ! k)") (simp_all add: finishTrial_def)
qed

lemma run_latch:
  "latch fc s \<Longrightarrow>
   latch (case fc of Some j \<Rightarrow> Some j | None \<Rightarrow> first_click (length (cards (world s))) evs)
         (run evs s)"
proof (induction evs arbitrary: fc s)
  case Nil
  then show ?case by (cases fc) simp_all
next
  case (Cons e es)
  show ?case
  proof (cases e)
    case (Click i now)
    from click_latch[OF Cons.prems, of i now] Cons.IH[of _ "step (Click i now) s"]
    have "latch (case (case fc of Some j \<Rightarrow> Some j
                | None \<Rightarrow> if i < length (cards (world s)) then Some i else None) of Some j \<Rightarrow> Some j
             | None \<Rightarrow> first_click (length (cards (world (step (Click i now) s)))) es)
          (run es (step (Click i now) s))" by blast
    with Click show ?thesis
      by (cases fc) (auto simp: step_cards_length simp del: step.simps split: if_splits)
  next
    case (Timeout k now cur)
    from timeout_latch[OF Cons.prems, of k now cur] Cons.IH[of fc "step (Timeout k now cur) s"]
    have "latch (case fc of Some j \<Rightarrow> Some j
             | None \<Rightarrow> first_click (length (cards (world (step (Timeout k now cur) s)))) es)
          (run es (step (Timeout k now cur) s))" by blast
    with Timeout show ?thesis
      by (cases fc) (simp_all add: step_cards_length del: step.simps)
  qed
qed

lemma run_append: "run (xs @ ys) s = run ys (run xs s)"
  by (induction xs arbitrary: s) simp_all

lemma run_responded: "responded s \<Longrightarrow> responded (run evs s)"
proof (induction evs arbitrary: s)
  case Nil
  then show ?case by simp
next
  case (Cons e es)
  have "responded (step e s)"
  proof (cases e)
    case (Click i now)
    with Cons.prems show ?thesis by (simp add: clickHandler_responded)
  next
    case (Timeout k now cur)
    with Cons.prems show ?thesis
      by (cases "snd (timers s ! k)") (simp_all add: finishTrial_def)
  qed
  with Cons.IH show ?case by simp
qed

lemma run_cards_length: "length (cards (world (run evs s))) = length (cards (world s))"
  by (induction evs arbitrary: s) (simp_all add: step_cards_length)

lemma click_responds:
  assumes "i < length (cards (world s))"
  shows "responded (step (Click i now) s)"
proof (cases "responded s")
  case True
  with assms show ?thesis by (simp add: clickHandler_responded)
next
  case False
  show ?thesis
  proof (cases "showFeedback (int i = correct (trial s)) (s\<lparr>responded := True\<rparr>)")
    case (Inl s2)
    with showFeedback_fields(4)[of "int i = correct (trial s)" "s\<lparr>responded := True\<rparr>" s2]
      assms False
    show ?thesis
      by (simp add: clickHandler_def Let_def finishTrial_def)
  next
    case (Inr s2)
    with showFeedback_fields(4)[of "int i = correct (trial s)" "s\<lparr>responded := True\<rparr>" s2]
      assms False
    show ?thesis
      by (simp add: clickHandler_def Let_def finishTrial_def setTimeout_def)
  qed
qed

lemma step_trial: "trial (step e s) = trial s"
proof (cases e)
  case (Click i now)
  show ?thesis
  proof (cases "showFeedback (int i = correct (trial s)) (s\<lparr>responded := True\<rparr>)")
    case (Inl s2)
    with showFeedback_fields(1)[of "int i = correct (trial s)" "s\<lparr>responded := True\<rparr>" s2] Click
    show ?thesis
      by (simp add: clickHandler_def Let_def finishTrial_def)
  next
    case (Inr s2)
    with showFeedback_fields(1)[of "int i = correct (trial s)" "s\<lparr>responded := True\<rparr>" s2] Click
    show ?thesis
      by (simp add: clickHandler_def Let_def finishTrial_def setTimeout_def)
  qed
next
  case (Timeout k now cur)
  then show ?thesis
    by (cases "snd (timers s ! k)") (simp_all add: finishTrial_def)
qed

lemma run_trial: "trial (run evs s) = trial s"
  by (induction evs arbitrary: s) (simp_all add: step_trial)

text \<open>
  Every report, immediate or delayed, carries \<open>correct = (cardIndex === trial.correct)\<close>.
\<close>

lemma reported_correct:
  assumes "r \<in> set (finished (run evs
             (setupTrial w trial' phase trialNum dimension' withFeedback' t0)))"
  shows "correct' r = (int (response r) = correct trial')"
proof -
  define s0 where "s0 = setupTrial w trial' phase trialNum dimension' withFeedback' t0"
  define fc where "fc = first_click (length (cards (world s0))) evs"
  have t: "trial (run evs s0) = trial'"
    by (simp add: run_trial s0_def setupTrial_def setTimeout_def Let_def)
  have "latch None s0"
    unfolding s0_def by (rule latch_setup)
  from run_latch[OF this, of evs] have l: "latch fc (run evs s0)"
    by (simp add: fc_def)
  from assms have r: "r \<in> set (finished (run evs s0))"
    by (simp add: s0_def)
  show ?thesis
  proof (cases fc)
    case None
    with l r show ?thesis by (simp add: latch_def)
  next
    case (Some i)
    with l r t show ?thesis by (auto simp: latch_def)
  qed
qed

lemmas example_defs =
  practice_example_def test_example_def trial_page_def COLOR_PRACTICE_TRIALS_def
  COLOR_TEST_TRIALS_def fixedTrial_def setupTrial_def setTimeout_def finishTrial_def
  clickHandler_def showFeedback_def playAudio_def js_index_def classList_add_def Let_def

text \<open>
  C3. A trial accepts at most one response. Whatever clicks and timer firings follow
  \<open>setupTrial\<close>, \<open>jsPsych.finishTrial\<close> has been called at most once, and the call, where there
  is one, reports the first click that landed on a card; and once a click on a card
  has been handled, every later click leaves the whole state as it is.
\<close>

theorem at_most_once:
  "let s0 = setupTrial w trial' phase trialNum dimension' withFeedback' t0
   in length (finished (run evs s0)) \<le> 1 \<and>
      (\<forall>r \<in> set (finished (run evs s0)).
          first_click (length (cards w)) evs = Some (response r)) \<and>
      (i < length (cards w) \<longrightarrow>
         step (Click j t2) (run evs2 (step (Click i t1) (run evs1 s0)))
           = run evs2 (step (Click i t1) (run evs1 s0)))"
proof -
  define s0 where "s0 = setupTrial w trial' phase trialNum dimension' withFeedback' t0"
  have c0: "length (cards (world s0)) = length (cards w)"
    by (simp add: s0_def setupTrial_def setTimeout_def Let_def)
  have "latch None s0"
    unfolding s0_def by (rule latch_setup)
  from run_latch[OF this, of evs]
  have l: "latch (first_click (length (cards w)) evs) (run evs s0)"
    by (simp add: c0)
  have a: "length (finished (run evs s0)) \<le> 1"
    using l by (cases "first_click (length (cards w)) evs") (simp_all add: latch_def)
  have b: "\<forall>r \<in> set (finished (run evs s0)).
             first_click (length (cards w)) evs = Some (response r)"
    using l by (cases "first_click (length (cards w)) evs") (simp_all add: latch_def)
  have c: "step (Click j t2) (run evs2 (step (Click i t1) (run evs1 s0)))
              = run evs2 (step (Click i t1) (run evs1 s0))" if "i < length (cards w)"
  proof -
    have "i < length (cards (world (run evs1 s0)))"
      using that by (simp add: run_cards_length c0)
    then have "responded (run evs2 (step (Click i t1) (run evs1 s0)))"
      by (intro run_responded click_responds)
    then show ?thesis by (simp add: clickHandler_responded)
  qed
  from a b c show ?thesis
    unfolding s0_def[symmetric] Let_def by blast
qed

theorem at_most_once_witness:
  "finished (run [Click 1 1400, Click 0 1500] test_example) =
     [\<lparr>response = 1, correct' = False, rt = 400\<rparr>] \<and>
   first_click (length (cards (trial_page True))) [Click 1 1400, Click 0 1500] = Some 1 \<and>
   1 < length (cards (trial_page True)) \<and>
   step (Click 0 1500) (step (Click 1 1400) test_example) = step (Click 1 1400) test_example"
proof -
  have f: "finished (run [Click 1 1400, Click 0 1500] test_example) =
     [\<lparr>response = 1, correct' = False, rt = 400\<rparr>]"
    by (simp add: example_defs)
  have n: "1 < length (cards (trial_page True))"
    by (simp add: trial_page_def)
  note t = at_most_once[of "trial_page True" "COLOR_TEST_TRIALS ! 0" "''color_test''" 1
      "''color''" False 1000 "[Click 1 1400, Click 0 1500]" 1 0 1500 "[]" 1400 "[]",
      unfolded Let_def, folded test_example_def]
  from t f have "first_click (length (cards (trial_page True))) [Click 1 1400, Click 0 1500]
      = Some 1"
    by simp
  moreover from t n have "step (Click 0 1500) (step (Click 1 1400) test_example)
      = step (Click 1 1400) test_example"
    by (simp only: run.simps)
  ultimately show ?thesis using f n by blast
qed

text \<open>
  What is reported, on either path. Without feedback the click handler itself reports,
  with the clock value of the click. With feedback the report is made by the delayed
  callback, with the clock value of its own run (\<open>t2\<close> below, not \<open>t1\<close>).
\<close>

lemma report_without_feedback:
  assumes "i < length (cards w)"
  shows "finished (step (Click i t1)
           (setupTrial w trial' phase trialNum dimension' False t0)) =
         [\<lparr>response = i, correct' = (int i = correct trial'), rt = t1 - t0\<rparr>]"
  using assms
  by (simp add: setupTrial_def setTimeout_def clickHandler_def finishTrial_def Let_def)

lemma report_with_feedback:
  assumes "i < length (cards w)" and "js_index (cards w) (correct trial') \<noteq> None"
  shows "finished (run [Click i t1, Timeout 0 t2 current]
           (setupTrial w trial' phase trialNum dimension' True t0)) =
         [\<lparr>response = i, correct' = (int i = correct trial'), rt = t2 - t0\<rparr>]"
  using assms
  by (cases "feedbackDiv w")
    (auto simp: setupTrial_def setTimeout_def clickHandler_def finishTrial_def
      showFeedback_def Let_def)

text \<open>
  C2. On the feedback path the reported \<open>rt\<close> is not the time from setup to click.
  The first practice trial is set up at clock value 1000 and its left card, the
  correct one, is clicked at 1400, that is after 400 ms; the delayed report runs at
  2900, 1500 ms after the click, reads the clock then and reports \<open>rt = 1900\<close>.
\<close>

theorem practice_rt_counts_feedback_delay:
  "finished (run [Click 0 1400, Timeout 0 2900 True] practice_example) =
     [\<lparr>response = 0, correct' = True, rt = 1900\<rparr>]"
  by (simp add: example_defs)

text \<open>
  C8, as stated, fails for the delayed report of a practice trial: that timer checks
  nothing. Here it fires after the response was accepted (\<open>responded\<close> holds) and
  while \<open>jsPsych.getCurrentTrial()\<close> is null, and it still calls
  \<open>jsPsych.finishTrial\<close>.
\<close>

theorem delayed_finish_unchecked:
  "responded (step (Click 0 1400) practice_example) \<and>
   finished (step (Click 0 1400) practice_example) = [] \<and>
   finished (step (Timeout 0 2900 False) (step (Click 0 1400) practice_example)) =
     [\<lparr>response = 0, correct' = True, rt = 1900\<rparr>]"
  by (simp add: example_defs)

text \<open>
  C8, amended. On the no-feedback path \<open>setupTrial\<close> schedules one timer, the reminder
  after 5000 ms. When a reminder fires it plays the prompt if no response has been
  accepted and \<open>jsPsych.getCurrentTrial()\<close> is not null, and otherwise changes nothing
  (in either case it is no longer pending). The delayed report of the feedback path
  checks nothing: when it fires it calls \<open>jsPsych.finishTrial\<close>.
\<close>

theorem reminder_checks_state:
  "timers (setupTrial w trial' phase trialNum dimension' False t0) = [(5000, Reminder)] \<and>
   (k < length (timers s) \<and> snd (timers s ! k) = Reminder \<longrightarrow>
      step (Timeout k now current) s =
        (if \<not> responded s \<and> current
         then s\<lparr>timers := take k (timers s) @ drop (Suc k) (timers s),
                world := playAudio ''Choose one of the pictures.'' (world s)\<rparr>
         else s\<lparr>timers := take k (timers s) @ drop (Suc k) (timers s)\<rparr>)) \<and>
   (k < length (timers s) \<and> snd (timers s ! k) = DelayedFinish i ok \<longrightarrow>
      finished (step (Timeout k now current) s) =
        finished s @ [\<lparr>response = i, correct' = ok, rt = now - startTime s\<rparr>])"
  by (simp add: setupTrial_def setTimeout_def finishTrial_def Let_def)

theorem reminder_checks_state_witness:
  "timers test_example = [(5000, Reminder)] \<and>
   spoken (world test_example) = [''COLOR''] \<and>
   spoken (world (step (Timeout 0 6000 True) test_example)) =
     [''COLOR'', ''Choose one of the pictures.''] \<and>
   step (Timeout 0 6000 False) test_example = test_example\<lparr>timers := []\<rparr> \<and>
   step (Timeout 0 6000 True) (step (Click 0 1400) test_example) =
     (step (Click 0 1400) test_example)\<lparr>timers := []\<rparr> \<and>
   timers (step (Click 0 1400) practice_example) = [(1500, DelayedFinish 0 True)] \<and>
   finished (step (Timeout 0 2900 False) (step (Click 0 1400) practice_example)) =
     [\<lparr>response = 0, correct' = True, rt = 1900\<rparr>]"
  using
    reminder_checks_state[of "trial_page True" "COLOR_TEST_TRIALS ! 0" "''color_test''" 1
      "''color''" 1000 0 test_example 6000 True]
    reminder_checks_state[of "trial_page True" "COLOR_TEST_TRIALS ! 0" "''color_test''" 1
      "''color''" 1000 0 test_example 6000 False]
    reminder_checks_state[of "trial_page True" "COLOR_TEST_TRIALS ! 0" "''color_test''" 1
      "''color''" 1000 0 "step (Click 0 1400) test_example" 6000 True]
    reminder_checks_state[of "trial_page True" "COLOR_TEST_TRIALS ! 0" "''color_test''" 1
      "''color''" 1000 0 "step (Click 0 1400) practice_example" 2900 False 0 True]
  by (simp add: example_defs toUpperCase_def)

text \<open>
  C10. On a trial with feedback whose page has the feedback element, the first click
  on a card other than \<open>trial.correct\<close> writes "This is the same color." and hands the
  colour-phrased correction to \<open>playAudio\<close>, and a click on card \<open>trial.correct\<close>
  writes "That's right!": neither the \<open>dimension\<close> argument of \<open>setupTrial\<close> nor the
  trial's own \<open>dimension\<close> has a part in it.
\<close>

theorem feedback_text:
  assumes "feedbackDiv w = Some f" and "i < length (cards w)"
  shows "let s0 = setupTrial w trial' phase trialNum dimension' True t0;
             s = step (Click i now) s0
         in if int i = correct trial'
            then feedbackDiv (world s) =
                   Some \<lparr>textContent = ''That's right!'',
                         className = ''dccs-feedback correct''\<rparr> \<and>
                 spoken (world s) = spoken (playAudio ''That's right!'' (world s0))
            else feedbackDiv (world s) =
                   Some \<lparr>textContent = ''This is the same color.'',
                         className = ''dccs-feedback incorrect''\<rparr> \<and>
                 spoken (world s) =
                   spoken (playAudio
                     ''This is the same color, so you should choose this picture.'' (world s0))"
  using assms
  by (auto simp: setupTrial_def clickHandler_def showFeedback_def setTimeout_def Let_def
      playAudio_def split: option.splits)

theorem feedback_text_witness:
  "feedbackDiv (trial_page True) =
     Some \<lparr>textContent = [], className = ''dccs-feedback''\<rparr> \<and>
   1 < length (cards (trial_page True)) \<and>
   feedbackDiv (world (step (Click 1 1400)
     (setupTrial (trial_page True) (SHAPE_TEST_TRIALS ! 0) ''shape_practice'' 1 ''shape''
        True 1000))) =
     Some \<lparr>textContent = ''This is the same color.'',
           className = ''dccs-feedback incorrect''\<rparr> \<and>
   spoken (world (step (Click 1 1400)
     (setupTrial (trial_page True) (SHAPE_TEST_TRIALS ! 0) ''shape_practice'' 1 ''shape''
        True 1000))) =
     [''SHAPE'', ''This is the same color, so you should choose this picture.'']"
  using feedback_text[of "trial_page True"
      "\<lparr>textContent = [], className = ''dccs-feedback''\<rparr>" 1 "SHAPE_TEST_TRIALS ! 0"
      "''shape_practice''" 1 "''shape''" 1000 1400]
  by (simp add: example_defs SHAPE_TEST_TRIALS_def toUpperCase_def)

section \<open>Properties of the summary\<close>

lemma rne_error: "\<bar>of_int (rne z) - z\<bar> \<le> 1/2"
proof -
  have "of_int \<lfloor>z\<rfloor> \<le> z" "z < of_int \<lfloor>z\<rfloor> + 1" by linarith+
  then show ?thesis
    by (auto simp: rne_def Let_def abs_le_iff)
qed

lemma rne_mono_int: "of_int k \<le> z \<Longrightarrow> k \<le> rne z"
proof -
  assume "of_int k \<le> z"
  then have "k \<le> \<lfloor>z\<rfloor>" by (simp add: le_floor_iff)
  then show ?thesis by (auto simp: rne_def Let_def)
qed

lemma rne_le_int: "z \<le> of_int k \<Longrightarrow> rne z \<le> k"
proof -
  assume a: "z \<le> of_int k"
  show ?thesis
  proof (cases "z = of_int k")
    case True
    then show ?thesis by (simp add: rne_def)
  next
    case False
    with a have "z < of_int k" by simp
    then have "\<lfloor>z\<rfloor> < k" by (simp add: floor_less_iff)
    then show ?thesis by (auto simp: rne_def Let_def)
  qed
qed

lemma flog2_bounds:
  assumes "0 < x"
  shows "2 powi (flog2 x) \<le> x" and "x < 2 powi (flog2 x + 1)"
proof -
  obtain p q where pq: "quotient_of x = (p, q)" by (cases "quotient_of x")
  then have q: "0 < q" and x: "x = of_int p / of_int q"
    by (simp_all add: quotient_of_denom_pos quotient_of_div)
  with assms have p: "0 < p"
    by (simp add: zero_less_divide_iff)
  define a where "a = bitlen p"
  define b where "b = bitlen q"
  have a1: "1 \<le> a" and b1: "1 \<le> b"
    using p q by (simp_all add: a_def b_def bitlen_alt_def)
  from bitlen_bounds[OF p] have pb: "2 ^ nat (a - 1) \<le> p" "p < 2 ^ nat a"
    by (simp_all add: a_def)
  from bitlen_bounds[OF q] have qb: "2 ^ nat (b - 1) \<le> q" "q < 2 ^ nat b"
    by (simp_all add: b_def)
  have pr: "(2::rat) powi (a - 1) \<le> of_int p" "of_int p < (2::rat) powi a"
  proof -
    have "(of_int (2 ^ nat (a - 1)) :: rat) \<le> of_int p" using pb(1) by (rule of_int_le_iff[THEN iffD2])
    then show "(2::rat) powi (a - 1) \<le> of_int p" using a1 by (simp add: power_int_def)
    have "(of_int p :: rat) < of_int (2 ^ nat a)" using pb(2) by (rule of_int_less_iff[THEN iffD2])
    then show "of_int p < (2::rat) powi a" using a1 by (simp add: power_int_def)
  qed
  have qr: "(2::rat) powi (b - 1) \<le> of_int q" "of_int q < (2::rat) powi b"
  proof -
    have "(of_int (2 ^ nat (b - 1)) :: rat) \<le> of_int q" using qb(1) by (rule of_int_le_iff[THEN iffD2])
    then show "(2::rat) powi (b - 1) \<le> of_int q" using b1 by (simp add: power_int_def)
    have "(of_int q :: rat) < of_int (2 ^ nat b)" using qb(2) by (rule of_int_less_iff[THEN iffD2])
    then show "of_int q < (2::rat) powi b" using b1 by (simp add: power_int_def)
  qed
  have qpos: "(0::rat) < of_int q" using q by simp
  have lo: "2 powi (a - b - 1) < x"
  proof -
    have "(2::rat) powi (a - b - 1) * of_int q < 2 powi (a - b - 1) * 2 powi b"
      using qr(2) by simp
    also have "\<dots> = 2 powi (a - 1)"
      by (simp add: power_int_add[symmetric])
    also have "\<dots> \<le> of_int p" by (rule pr(1))
    finally show ?thesis using qpos by (simp add: x pos_less_divide_eq)
  qed
  have hi: "x < 2 powi (a - b + 1)"
  proof -
    have "of_int p < (2::rat) powi a" by (rule pr(2))
    also have "\<dots> = 2 powi (a - b + 1) * 2 powi (b - 1)"
      by (simp add: power_int_add[symmetric])
    also have "\<dots> \<le> 2 powi (a - b + 1) * of_int q"
      using qr(1) by simp
    finally show ?thesis using qpos by (simp add: x pos_divide_less_eq)
  qed
  have f: "flog2 x = (if 2 powi (a - b) \<le> x then a - b else a - b - 1)"
    by (simp add: flog2_def pq a_def b_def Let_def)
  show "2 powi (flog2 x) \<le> x" using lo by (simp add: f)
  show "x < 2 powi (flog2 x + 1)" using hi by (simp add: f)
qed


lemma two_powi_less_cancel: "(2::rat) powi m < 2 powi n \<Longrightarrow> m < n"
proof (rule ccontr)
  assume a: "(2::rat) powi m < 2 powi n" and "\<not> m < n"
  then have "n \<le> m" by simp
  then have "(2::rat) powi n \<le> 2 powi m" by (rule power_int_increasing) simp
  with a show False by simp
qed

lemma two_powi_split: "(2::rat) powi (m + n) = 2 powi m * 2 powi n"
  by (rule power_int_add) simp

lemma round_double_normal:
  assumes lo: "2 powi (- 1022) \<le> x" and hi: "x < 2 powi 1023"
  shows "\<exists>y. round_double x = Fin y \<and> 0 < y \<and> \<bar>y - x\<bar> \<le> x * 2 powi (- 53)"
proof -
  have x0: "0 < x"
    using lo by (rule less_le_trans[rotated]) simp
  define e where "e = flog2 x"
  have b: "2 powi e \<le> x" "x < 2 powi (e + 1)"
    using flog2_bounds[OF x0] by (simp_all add: e_def)
  have "(2::rat) powi (- 1022) < 2 powi (e + 1)"
    using lo b(2) by (rule le_less_trans)
  then have e_lo: "- 1022 \<le> e"
    using two_powi_less_cancel[of "- 1022" "e + 1"] by simp
  have "(2::rat) powi e < 2 powi 1023"
    using b(1) hi by (rule le_less_trans)
  then have e_hi: "e < 1023"
    by (rule two_powi_less_cancel)
  define u where "u = (2::rat) powi (e - 52)"
  have u0: "0 < u" by (simp add: u_def)
  define z where "z = x / u"
  have zl: "2 ^ 52 \<le> z"
  proof -
    have "2 ^ 52 * u = 2 powi e"
      using two_powi_split[of 52 "e - 52"] by (simp add: u_def)
    then show ?thesis using b(1) u0 by (simp add: z_def pos_le_divide_eq)
  qed
  have zh: "z < 2 ^ 53"
  proof -
    have "2 ^ 53 * u = 2 powi (e + 1)"
      using two_powi_split[of 53 "e - 52"] by (simp add: u_def add.commute)
    then show ?thesis using b(2) u0 by (simp add: z_def pos_divide_less_eq)
  qed
  define y where "y = of_int (rne z) * u"
  have r_lo: "2 ^ 52 \<le> rne z"
    using rne_mono_int[of "2 ^ 52" z] zl by simp
  have r_hi: "rne z \<le> 2 ^ 53"
    using rne_le_int[of z "2 ^ 53"] zh by simp
  have y0: "0 < y"
    using r_lo u0 by (simp add: y_def)
  have "y \<le> 2 ^ 53 * u"
  proof -
    have "(of_int (rne z) :: rat) \<le> of_int (2 ^ 53)"
      using r_hi by (rule of_int_le_iff[THEN iffD2])
    then show ?thesis using u0 by (simp add: y_def)
  qed
  also have "2 ^ 53 * u = 2 powi (e + 1)"
    using two_powi_split[of 53 "e - 52"] by (simp add: u_def add.commute)
  also have "\<dots> < 2 powi 1024"
    using e_hi by (intro power_int_strict_increasing) simp_all
  finally have no_ovf: "\<not> 2 powi 1024 \<le> y" by simp
  have "\<bar>y - x\<bar> = \<bar>of_int (rne z) - z\<bar> * u"
  proof -
    have "y - x = (of_int (rne z) - z) * u"
      using u0 by (simp add: y_def z_def algebra_simps)
    then show ?thesis using u0 by (simp add: abs_mult)
  qed
  also have "\<dots> \<le> 1/2 * u"
    using rne_error[of z] u0 by (intro mult_right_mono) simp_all
  also have "1/2 * u = 2 powi e * 2 powi (- 53)"
  proof -
    have "(2::rat) powi (e - 52) = 2 powi e * 2 powi (- 52)"
      using two_powi_split[of e "- 52"] by simp
    then show ?thesis by (simp add: u_def power_int_minus)
  qed
  also have "\<dots> \<le> x * 2 powi (- 53)"
    using b(1) by (intro mult_right_mono) simp_all
  finally have err: "\<bar>y - x\<bar> \<le> x * 2 powi (- 53)" .
  have "round_double x = Fin y"
    using x0 e_lo no_ovf
    by (simp add: round_double_def Let_def e_def[symmetric] max_def u_def[symmetric]
        z_def[symmetric] y_def[symmetric])
  with y0 err show ?thesis by blast
qed


lemma grid_nearest:
  fixes y :: rat and C T :: int
  assumes T: "0 < T" "T < 2 ^ 32"
    and close: "\<bar>y - 100 * of_int C / of_int T\<bar> < 1 / 2 ^ 33"
  shows "\<bar>of_int \<lfloor>y + 1/2\<rfloor> - 100 * of_int C / of_int T\<bar> \<le> (1/2 :: rat)"
proof -
  define N where "N = \<lfloor>y + 1/2\<rfloor>"
  define q :: rat where "q = 100 * of_int C / of_int T"
  define D where "D = 100 * C - N * T"
  have Tr: "(0::rat) < of_int T" using T(1) by simp
  have fl: "of_int N - 1/2 \<le> y" "y < of_int N + 1/2"
    unfolding N_def by linarith+
  have qN: "q - of_int N = of_int D / of_int T"
    using Tr by (simp add: q_def D_def field_simps)
  have step: "(1::rat) / 2 ^ 33 < 1 / (2 * of_int T)"
  proof -
    have "2 * T < 2 ^ 33" using T(2) by simp
    then have "(of_int (2 * T) :: rat) < of_int (2 ^ 33)" by (rule of_int_less_iff[THEN iffD2])
    then have "2 * (of_int T :: rat) < 2 ^ 33" by simp
    then show ?thesis using Tr by (simp add: field_simps)
  qed
  have up: "q - of_int N \<le> 1/2"
  proof (rule ccontr)
    assume "\<not> q - of_int N \<le> 1/2"
    then have "1/2 < of_int D / (of_int T :: rat)" by (simp add: qN)
    then have "(of_int T :: rat) < of_int (2 * D)" using Tr by (simp add: field_simps)
    then have "T < 2 * D" by (simp only: of_int_less_iff)
    then have "T + 1 \<le> 2 * D" by simp
    then have "(of_int (T + 1) :: rat) \<le> of_int (2 * D)" by (simp only: of_int_le_iff)
    then have "(of_int (T + 1) :: rat) / (2 * of_int T) \<le> of_int (2 * D) / (2 * of_int T)"
      using Tr by (intro divide_right_mono) simp_all
    moreover have "(of_int (T + 1) :: rat) / (2 * of_int T) = 1/2 + 1 / (2 * of_int T)"
      using Tr by (simp add: add_divide_distrib)
    moreover have "(of_int (2 * D) :: rat) / (2 * of_int T) = of_int D / of_int T"
      by simp
    ultimately have "1/2 + 1 / (2 * of_int T) \<le> of_int D / (of_int T :: rat)"
      by simp
    then have "1/2 + 1 / (2 * of_int T) \<le> q - of_int N" by (simp add: qN)
    with fl(2) have "1 / (2 * of_int T) < q - y" by linarith
    with step close show False by (simp add: q_def abs_less_iff)
  qed
  have down: "- (1/2) \<le> q - of_int N"
  proof (rule ccontr)
    assume "\<not> - (1/2) \<le> q - of_int N"
    then have "of_int D / (of_int T :: rat) < - (1/2)" by (simp add: qN)
    then have "(of_int (2 * D) :: rat) < of_int (- T)" using Tr by (simp add: field_simps)
    then have "2 * D < - T" by (simp only: of_int_less_iff)
    then have "2 * D \<le> - T - 1" by simp
    then have "(of_int (2 * D) :: rat) \<le> of_int (- T - 1)" by (simp only: of_int_le_iff)
    then have "(of_int (2 * D) :: rat) / (2 * of_int T) \<le> of_int (- T - 1) / (2 * of_int T)"
      using Tr by (intro divide_right_mono) simp_all
    moreover have "(of_int (- T - 1) :: rat) / (2 * of_int T) = - (1/2) - 1 / (2 * of_int T)"
      using Tr by (simp add: diff_divide_distrib)
    moreover have "(of_int (2 * D) :: rat) / (2 * of_int T) = of_int D / of_int T"
      by simp
    ultimately have "of_int D / (of_int T :: rat) \<le> - (1/2) - 1 / (2 * of_int T)"
      by simp
    then have "q - of_int N \<le> - (1/2) - 1 / (2 * of_int T)" by (simp add: qN)
    with fl(1) have "1 / (2 * of_int T) \<le> y - q" by linarith
    with step close show False by (simp add: q_def abs_less_iff)
  qed
  from up down show ?thesis
    unfolding N_def q_def by linarith
qed


lemma percent_nearest:
  fixes c t :: nat
  assumes t: "0 < t" "t < 2 ^ 32" and ct: "c \<le> t"
  shows "\<exists>n. toFixed0 (js_mul (js_div (Fin (of_nat c)) (Fin (of_nat t))) (Fin 100))
               = FixedDigits n \<and>
             \<bar>of_nat n - 100 * of_nat c / of_nat t\<bar> \<le> (1/2 :: rat)"
proof (cases "c = 0")
  case True
  then show ?thesis using t(1)
    by (simp add: round_double_def toFixed0_def)
next
  case False
  define x :: rat where "x = of_nat c / of_nat t"
  define u :: rat where "u = 2 powi (- 53)"
  have tr: "(0::rat) < of_nat t" using t(1) by simp
  have u: "0 < u" "u \<le> 1/2" "300 * u < 1 / 2 ^ 33" "300 * u \<le> 1"
    by (simp_all add: u_def power_int_minus)
  have x_hi: "x \<le> 1"
    using ct tr by (simp add: x_def)
  have x_lo: "1 / 2 ^ 32 \<le> x"
  proof -
    have "(of_nat t :: rat) \<le> of_nat (2 ^ 32)" using t(2) by (simp only: of_nat_le_iff)
    then have "(of_nat t :: rat) \<le> 2 ^ 32" by simp
    then have "1 / 2 ^ 32 \<le> 1 / (of_nat t :: rat)" using tr by (intro divide_left_mono) simp_all
    also have "\<dots> \<le> of_nat c / of_nat t"
      using False tr by (intro divide_right_mono) simp_all
    finally show ?thesis by (simp add: x_def)
  qed
  have "2 powi (- 1022) \<le> (1 / 2 ^ 32 :: rat)"
    by (simp add: power_int_minus field_simps)
  with x_lo have n1: "2 powi (- 1022) \<le> x" by simp
  have "(1::rat) < 2 powi 1023" by simp
  with x_hi have n2: "x < 2 powi 1023" by simp
  from round_double_normal[OF n1 n2] obtain y1 where y1: "round_double x = Fin y1"
    "0 < y1" "\<bar>y1 - x\<bar> \<le> x * u" by (auto simp: u_def)
  have xu: "x * u \<le> u" "x * u \<le> x / 2"
    using x_hi x_lo u by (simp_all add: mult_left_le_one_le mult_left_le)
  have y1_hi: "y1 \<le> 2" using y1(3) xu(1) x_hi u(2) by linarith
  have y1_lo: "1 / 2 ^ 33 \<le> y1"
  proof -
    have "x / 2 \<le> y1" using y1(3) xu(2) by linarith
    moreover have "(1 / 2 ^ 33 :: rat) \<le> x / 2" using x_lo by simp
    ultimately show ?thesis by simp
  qed
  define w where "w = y1 * 100"
  have "2 powi (- 1022) \<le> (1 / 2 ^ 33 :: rat)"
    by (simp add: power_int_minus field_simps)
  with y1_lo have m1: "2 powi (- 1022) \<le> w" by (simp add: w_def)
  have "(200::rat) < 2 powi 1023" by simp
  with y1_hi have m2: "w < 2 powi 1023" by (simp add: w_def)
  from round_double_normal[OF m1 m2] obtain y2 where y2: "round_double w = Fin y2"
    "0 < y2" "\<bar>y2 - w\<bar> \<le> w * u" by (auto simp: u_def)
  have "w * u \<le> 200 * u" using y1_hi u(1) by (simp add: w_def)
  moreover have "\<bar>w - 100 * x\<bar> \<le> 100 * u"
  proof -
    have "\<bar>w - 100 * x\<bar> = 100 * \<bar>y1 - x\<bar>" by (simp add: w_def abs_if)
    with y1(3) xu(1) show ?thesis by simp
  qed
  ultimately have close: "\<bar>y2 - 100 * x\<bar> \<le> 300 * u" using y2(3) by linarith
  then have "y2 \<le> 101" using x_hi u(4) by linarith
  then have small: "\<not> 10 ^ 21 \<le> y2" by simp
  have val: "js_mul (js_div (Fin (of_nat c)) (Fin (of_nat t))) (Fin 100) = Fin y2"
    using t(1) y1(1) y2(1) by (simp add: x_def[symmetric] w_def[symmetric])
  define N where "N = \<lfloor>y2 + 1/2\<rfloor>"
  have N0: "0 \<le> N" using y2(2) by (simp add: N_def)
  have "\<bar>y2 - 100 * of_int (int c) / of_int (int t)\<bar> < 1 / 2 ^ 33"
    using close u(3) by (simp add: x_def)
  then have "\<bar>of_int N - 100 * of_int (int c) / of_int (int t)\<bar> \<le> (1/2 :: rat)"
    unfolding N_def using t by (intro grid_nearest) simp_all
  moreover have "(of_nat (nat N) :: rat) = of_int N" using N0 by simp
  ultimately have "\<bar>of_nat (nat N) - 100 * of_nat c / of_nat t\<bar> \<le> (1/2 :: rat)"
    by simp
  moreover have "toFixed0 (Fin y2) = FixedDigits (nat N)"
    using small by (simp add: toFixed0_def N_def)
  ultimately show ?thesis using val by auto
qed


lemma createResults_cells:
  "createResults recorded =
     (toFixed0 (accuracy (phase_results ''color_test'' recorded)),
      toFixed0 (accuracy (phase_results ''shape_test'' recorded)),
      toFixed0 (accuracy (phase_results ''mixed'' recorded)))"
  by (simp add: createResults_def phase_results_def filter_rows_def Let_def conj_commute)

lemma accuracy_nearest:
  assumes "rows \<noteq> []" and "length rows < 2 ^ 32"
  shows "nearest_percent (toFixed0 (accuracy rows)) (length (correct_results rows)) (length rows)"
proof -
  have "length (correct_results rows) \<le> length rows"
    by (simp add: correct_results_def)
  with assms percent_nearest[of "length rows" "length (correct_results rows)"]
  show ?thesis
    by (auto simp: nearest_percent_def accuracy_def count_def filter_rows_def
        correct_results_def algebra_simps)
qed

lemma accuracy_empty: "toFixed0 (accuracy []) = FixedNaN"
  by (simp add: accuracy_def count_def filter_rows_def toFixed0_def)

lemma phase_results_length: "length (phase_results p recorded) \<le> length recorded"
  by (simp add: phase_results_def)

lemma example_cells: "createResults example_data = (FixedDigits 80, FixedDigits 67, FixedDigits 13)"
  by code_simp

text \<open>
  Where the exact percentage lies halfway between two integers, the rounding of the
  quotient decides: 29 correct results of 200 are 14.5 percent, the doubles give
  14.499999999999998 and the cell shows 14.
\<close>

lemma halfway_example:
  "toFixed0 (js_mul (js_div (Fin 29) (Fin 200)) (Fin 100)) = FixedDigits 14"
  by code_simp

text \<open>
  C6. When at most \<open>2^32 - 1\<close> results are recorded (the greatest length of a
  JavaScript array), the accuracy cell of every phase that has a result shows an
  integer nearest to: the number of that phase's results with \<open>correct = true\<close>,
  divided by the number of that phase's results, times 100. The quotient and the
  product are rounded to doubles on the way; the integer shown is a nearest one to the
  exact percentage all the same.
\<close>

theorem summary_accuracy:
  assumes "length recorded < 2 ^ 32"
  shows "case createResults recorded of
           (colorCell, shapeCell, mixedCell) \<Rightarrow>
             (phase_results ''color_test'' recorded \<noteq> [] \<longrightarrow>
                nearest_percent colorCell
                  (length (correct_results (phase_results ''color_test'' recorded)))
                  (length (phase_results ''color_test'' recorded))) \<and>
             (phase_results ''shape_test'' recorded \<noteq> [] \<longrightarrow>
                nearest_percent shapeCell
                  (length (correct_results (phase_results ''shape_test'' recorded)))
                  (length (phase_results ''shape_test'' recorded))) \<and>
             (phase_results ''mixed'' recorded \<noteq> [] \<longrightarrow>
                nearest_percent mixedCell
                  (length (correct_results (phase_results ''mixed'' recorded)))
                  (length (phase_results ''mixed'' recorded)))"
proof -
  have "length (phase_results p recorded) < 2 ^ 32" for p
    using phase_results_length[of p recorded] assms by simp
  then show ?thesis
    by (simp add: createResults_cells accuracy_nearest)
qed

text \<open>
  The example of the claim: five colour test results of which four are correct show
  80 (and two of three show 67, one of eight shows 13).
\<close>

theorem summary_accuracy_witness:
  "length example_data < 2 ^ 32 \<and>
   createResults example_data = (FixedDigits 80, FixedDigits 67, FixedDigits 13) \<and>
   length (phase_results ''color_test'' example_data) = 5 \<and>
   length (correct_results (phase_results ''color_test'' example_data)) = 4 \<and>
   nearest_percent (FixedDigits 80) 4 5 \<and>
   length (phase_results ''shape_test'' example_data) = 3 \<and>
   length (correct_results (phase_results ''shape_test'' example_data)) = 2 \<and>
   nearest_percent (FixedDigits 67) 2 3 \<and>
   length (phase_results ''mixed'' example_data) = 8 \<and>
   length (correct_results (phase_results ''mixed'' example_data)) = 1 \<and>
   nearest_percent (FixedDigits 13) 1 8"
proof -
  have l: "length example_data < 2 ^ 32"
    by (simp add: example_data_def)
  have n: "length (phase_results ''color_test'' example_data) = 5"
    "length (correct_results (phase_results ''color_test'' example_data)) = 4"
    "length (phase_results ''shape_test'' example_data) = 3"
    "length (correct_results (phase_results ''shape_test'' example_data)) = 2"
    "length (phase_results ''mixed'' example_data) = 8"
    "length (correct_results (phase_results ''mixed'' example_data)) = 1"
    by code_simp+
  from n have ne: "phase_results ''color_test'' example_data \<noteq> []"
    "phase_results ''shape_test'' example_data \<noteq> []"
    "phase_results ''mixed'' example_data \<noteq> []"
    by auto
  from summary_accuracy[OF l] ne l show ?thesis
    by (simp add: example_cells n)
qed

text \<open>
  C9. Nothing guards the division: the accuracy cell of a phase without a recorded
  result shows \<open>NaN\<close> (the quotient of zero by zero, times 100).
\<close>

theorem empty_phase_nan:
  "case createResults recorded of
     (colorCell, shapeCell, mixedCell) \<Rightarrow>
       (phase_results ''color_test'' recorded = [] \<longrightarrow> colorCell = FixedNaN) \<and>
       (phase_results ''shape_test'' recorded = [] \<longrightarrow> shapeCell = FixedNaN) \<and>
       (phase_results ''mixed'' recorded = [] \<longrightarrow> mixedCell = FixedNaN)"
  by (simp add: createResults_cells accuracy_empty)

theorem empty_phase_nan_witness:
  "phase_results ''color_test'' [] = [] \<and> phase_results ''shape_test'' [] = [] \<and>
   phase_results ''mixed'' [] = [] \<and>
   createResults [] = (FixedNaN, FixedNaN, FixedNaN)"
  using empty_phase_nan[of "[]"]
  by (cases "createResults []") (simp add: phase_results_def)

end
